theory Spec2Isabelle
  imports Main "HOL-Library.Signed_Division"
begin

section \<open>Strings\<close>

text \<open>
  A Go string is a sequence of bytes; it is modelled as a \<open>char list\<close>. The functions of
  package \<open>strings\<close> that \<open>main.go\<close> calls are written out below. Three of them
  (\<open>ToLower\<close>, \<open>TrimSpace\<close>, \<open>Fields\<close>) decode UTF-8 and consult the Unicode tables
  once the string holds a byte above 127; on a string of ASCII bytes they work bytewise.
  The bytewise behaviour is defined here; the Unicode behaviour is a parameter, the record
  \<open>unicode\<close>, so that nothing is claimed about it.
\<close>

record unicode =
  uToLower :: "string \<Rightarrow> string"
  uTrimSpace :: "string \<Rightarrow> string"
  uFields :: "string \<Rightarrow> string list"

definition isASCII :: "string \<Rightarrow> bool" where
  "isASCII s = list_all (\<lambda>c. (of_char c :: nat) < 128) s"

definition lower_byte :: "char \<Rightarrow> char" where
  "lower_byte c =
     (if (65::nat) \<le> of_char c \<and> (of_char c :: nat) \<le> 90
      then char_of ((of_char c :: nat) + 32) else c)"

definition ToLower :: "unicode \<Rightarrow> string \<Rightarrow> string" where
  "ToLower U s = (if isASCII s then map lower_byte s else uToLower U s)"

text \<open>The white space of ASCII: tab, line feed, vertical tab, form feed, carriage return, space.\<close>

definition is_space :: "char \<Rightarrow> bool" where
  "is_space c = ((of_char c :: nat) \<in> {9, 10, 11, 12, 13, 32})"

definition ascii_trim :: "string \<Rightarrow> string" where
  "ascii_trim s = rev (dropWhile is_space (rev (dropWhile is_space s)))"

definition TrimSpace :: "unicode \<Rightarrow> string \<Rightarrow> string" where
  "TrimSpace U s = (if isASCII s then ascii_trim s else uTrimSpace U s)"

function ascii_fields :: "string \<Rightarrow> string list" where
  "ascii_fields s =
     (case dropWhile is_space s of
        [] \<Rightarrow> []
      | c # cs \<Rightarrow> takeWhile (\<lambda>x. \<not> is_space x) (c # cs)
                 # ascii_fields (dropWhile (\<lambda>x. \<not> is_space x) (c # cs)))"
  by pat_completeness auto
termination
proof (relation "measure length")
  show "wf (measure length)" by simp
next
  fix s :: string and c cs
  assume h: "dropWhile is_space s = c # cs"
  have "\<not> is_space c" using h by (metis hd_dropWhile list.sel(1) list.distinct(1))
  then have "length (dropWhile (\<lambda>x. \<not> is_space x) (c # cs)) \<le> length cs"
    by (simp add: length_dropWhile_le)
  also have "length cs < length (dropWhile is_space s)" using h by simp
  also have "\<dots> \<le> length s" by (rule length_dropWhile_le)
  finally show "(dropWhile (\<lambda>x. \<not> is_space x) (c # cs), s) \<in> measure length" by simp
qed

declare ascii_fields.simps [simp del]

definition Fields :: "unicode \<Rightarrow> string \<Rightarrow> string list" where
  "Fields U s = (if isASCII s then ascii_fields s else uFields U s)"

fun Join :: "string list \<Rightarrow> string \<Rightarrow> string" where
  "Join [] sep = []"
| "Join [x] sep = x"
| "Join (x # y # r) sep = x @ sep @ Join (y # r) sep"

fun HasPrefix :: "string \<Rightarrow> string \<Rightarrow> bool" where
  "HasPrefix s [] = True"
| "HasPrefix [] (p # ps) = False"
| "HasPrefix (c # cs) (p # ps) = (c = p \<and> HasPrefix cs ps)"

text \<open>\<open>strings.Index\<close>: the byte offset of the first occurrence, or \<open>-1\<close>.\<close>

fun Index :: "string \<Rightarrow> string \<Rightarrow> int" where
  "Index [] sub = (if sub = [] then 0 else -1)"
| "Index (c # cs) sub =
     (if HasPrefix (c # cs) sub then 0
      else (let r = Index cs sub in if r = -1 then -1 else r + 1))"

text \<open>
  The slice expressions \<open>s[lo:]\<close> and \<open>s[lo:hi]\<close>. Go panics at run time unless
  \<open>0 \<le> lo \<le> hi \<le> len(s)\<close>; the panic is the value \<open>None\<close>.
\<close>

definition slice_from :: "string \<Rightarrow> int \<Rightarrow> string option" where
  "slice_from s lo =
     (if 0 \<le> lo \<and> lo \<le> int (length s) then Some (drop (nat lo) s) else None)"

definition slice :: "string \<Rightarrow> int \<Rightarrow> int \<Rightarrow> string option" where
  "slice s lo hi =
     (if 0 \<le> lo \<and> lo \<le> hi \<and> hi \<le> int (length s)
      then Some (take (nat (hi - lo)) (drop (nat lo) s)) else None)"

text \<open>The verb \<open>%d\<close> of \<open>fmt.Sprintf\<close>: decimal digits, with a minus sign below zero.\<close>

fun digits :: "nat \<Rightarrow> string" where
  "digits n = (if n < 10 then [char_of (48 + n)] else digits (n div 10) @ [char_of (48 + n mod 10)])"

declare digits.simps [simp del]

definition itoa :: "int \<Rightarrow> string" where
  "itoa i = (if i < 0 then CHR ''-'' # digits (nat (- i)) else digits (nat i))"

section \<open>Probe results, title extraction, output lines\<close>

record probeResult =
  success :: bool
  status :: int
  server :: string
  title :: string

text \<open>\<open>probeResult{}\<close>: every field at its zero value.\<close>

definition zero_result :: probeResult where
  "zero_result = \<lparr>success = False, status = 0, server = [], title = []\<rparr>"

text \<open>
  \<open>extractTitle\<close>. The offsets are found in the lowered copy and applied to the body
  itself; \<open>None\<close> is the run-time panic of a slice expression out of range.
\<close>

definition extractTitle :: "unicode \<Rightarrow> string \<Rightarrow> string option" where
  "extractTitle U body =
     (let lower = ToLower U body;
          start = Index lower ''<title>''
      in if start = -1 then Some []
         else (let start = start + 7 in
               case slice_from lower start of
                 None \<Rightarrow> None
               | Some rest \<Rightarrow>
                   (let end' = Index rest ''</title>''
                    in if end' = -1 then Some []
                       else (case slice body start (start + end') of
                               None \<Rightarrow> None
                             | Some t \<Rightarrow> Some (Join (Fields U (TrimSpace U t)) '' '')))))"

definition formatOutput :: "string \<Rightarrow> probeResult \<Rightarrow> bool \<Rightarrow> bool \<Rightarrow> bool \<Rightarrow> string" where
  "formatOutput url r showStatus showServer showTitle =
     (let out = url;
          out = (if showStatus then out @ '' ['' @ itoa (status r) @ '']'' else out);
          out = (if showServer
                 then (let server = server r;
                           server = (if server = [] then ''-'' else server)
                       in out @ '' ['' @ server @ '']'')
                 else out);
          out = (if showTitle
                 then (let title = title r;
                           title = (if title = [] then ''-'' else title)
                       in out @ '' ['' @ title @ '']'')
                 else out)
      in out)"

section \<open>The probe executor\<close>

text \<open>
  The network is outside the program. What \<open>probeURL\<close> sees of it is whether
  \<open>http.NewRequest\<close> accepts the method and the URL, and what \<open>client.Do\<close> answers to
  a request: an error or a response. Both are fields of the record \<open>http\<close>. A response
  body is the bytes the server delivers and whether the stream ends in a read error
  instead of end-of-file.
\<close>

type_synonym error = string

record request =
  Method :: string
  URL :: string
  ReqHeader :: "(string \<times> string) list"
  Close :: bool

record body =
  bytes :: string
  read_err :: bool

record response =
  StatusCode :: int
  Header :: "(string \<times> string) list"
  Body :: body

record http =
  request_ok :: "string \<Rightarrow> string \<Rightarrow> bool"
  Do :: "request \<Rightarrow> error + response"

definition NewRequest :: "http \<Rightarrow> string \<Rightarrow> string \<Rightarrow> error + request" where
  "NewRequest H method url =
     (if request_ok H method url
      then Inr \<lparr>Method = (if method = [] then ''GET'' else method), URL = url,
                ReqHeader = [], Close = False\<rparr>
      else Inl ''net/http: invalid request'')"

definition Header_Add :: "(string \<times> string) list \<Rightarrow> string \<Rightarrow> string \<Rightarrow> (string \<times> string) list" where
  "Header_Add h k v = h @ [(k, v)]"

definition Header_Get :: "(string \<times> string) list \<Rightarrow> string \<Rightarrow> string" where
  "Header_Get h k = (case map_of h k of None \<Rightarrow> [] | Some v \<Rightarrow> v)"

text \<open>
  \<open>ioutil.ReadAll(io.LimitReader(b, n))\<close>: at most \<open>n\<close> bytes, and the read error of
  the stream when it is met before the limit.
\<close>

definition ReadAll_LimitReader :: "body \<Rightarrow> nat \<Rightarrow> string \<times> bool" where
  "ReadAll_LimitReader b n = (take n (bytes b), read_err b \<and> length (bytes b) < n)"

definition probeURL :: "http \<Rightarrow> unicode \<Rightarrow> string \<Rightarrow> string \<Rightarrow> string \<Rightarrow> bool \<Rightarrow> probeResult option" where
  "probeURL H U url method userAgent needBody =
     (let result = zero_result in
      case NewRequest H method url of
        Inl err \<Rightarrow> Some result
      | Inr req \<Rightarrow>
          (let req = req\<lparr>ReqHeader := Header_Add (ReqHeader req) ''User-Agent'' userAgent\<rparr>;
               req = req\<lparr>ReqHeader := Header_Add (ReqHeader req) ''Connection'' ''close''\<rparr>;
               req = req\<lparr>Close := True\<rparr>
           in case Do H req of
                Inl err \<Rightarrow> Some result
              | Inr resp \<Rightarrow>
                  (let result = result\<lparr>success := True\<rparr>;
                       result = result\<lparr>status := StatusCode resp\<rparr>;
                       result = result\<lparr>server := Header_Get (Header resp) ''Server''\<rparr>
                   in if needBody
                      then (case ReadAll_LimitReader (Body resp) 4096 of
                              (body, err) \<Rightarrow>
                                if \<not> err
                                then (case extractTitle U body of
                                        None \<Rightarrow> None
                                      | Some t \<Rightarrow> Some (result\<lparr>title := t\<rparr>))
                                else Some result)
                      else Some result)))"

section \<open>Configuration, workers, feeder\<close>

text \<open>
  The flags that decide what is probed and printed. The time-out, the proxy and the rate
  limit change when a probe happens and through which transport, not which probes happen;
  they are part of \<open>http\<close>.
\<close>

text \<open>The flag \<open>-method\<close> is the field \<open>httpMethod\<close>.\<close>

record config =
  concurrency :: int
  probes :: "string list"
  skipDefault :: bool
  preferHTTPS :: bool
  httpMethod :: string
  userAgent :: string
  showStatus :: bool
  showServer :: bool
  showTitle :: bool

datatype chan = HttpsURLs | HttpURLs | Output

text \<open>
  One iteration of the loop of an HTTPS worker, for the submission \<open>u\<close> it received: the
  URL it probes and, unless \<open>probeURL\<close> panics (\<open>None\<close>), the lines it then sends on
  \<open>output\<close> and the strings it then sends on \<open>httpURLs\<close>, in this order.
\<close>

definition https_worker :: "config \<Rightarrow> http \<Rightarrow> unicode \<Rightarrow> string \<Rightarrow> string \<times> (string list \<times> string list) option" where
  "https_worker cfg H U u =
     (let withProto = ''https://'' @ u in
      (withProto,
       case probeURL H U withProto (httpMethod cfg) (userAgent cfg) (showTitle cfg) of
         None \<Rightarrow> None
       | Some result \<Rightarrow>
           Some (if success result
                 then ([formatOutput withProto result (showStatus cfg) (showServer cfg) (showTitle cfg)],
                       if preferHTTPS cfg then [] else [u])
                 else ([], [u]))))"

text \<open>The same for an HTTP worker, which sends nothing on \<open>httpURLs\<close>.\<close>

definition http_worker :: "config \<Rightarrow> http \<Rightarrow> unicode \<Rightarrow> string \<Rightarrow> string \<times> (string list \<times> string list) option" where
  "http_worker cfg H U u =
     (let withProto = ''http://'' @ u in
      (withProto,
       case probeURL H U withProto (httpMethod cfg) (userAgent cfg) (showTitle cfg) of
         None \<Rightarrow> None
       | Some result \<Rightarrow>
           Some (if success result
                 then ([formatOutput withProto result (showStatus cfg) (showServer cfg) (showTitle cfg)], [])
                 else ([], []))))"

definition xlarge :: "string list" where
  "xlarge = [''81'', ''300'', ''591'', ''593'', ''832'', ''981'', ''1010'', ''1311'', ''2082'',
     ''2087'', ''2095'', ''2096'', ''2480'', ''3000'', ''3128'', ''3333'', ''4243'', ''4567'',
     ''4711'', ''4712'', ''4993'', ''5000'', ''5104'', ''5108'', ''5800'', ''6543'', ''7000'',
     ''7396'', ''7474'', ''8000'', ''8001'', ''8008'', ''8014'', ''8042'', ''8069'', ''8080'',
     ''8081'', ''8088'', ''8090'', ''8091'', ''8118'', ''8123'', ''8172'', ''8222'', ''8243'',
     ''8280'', ''8281'', ''8333'', ''8443'', ''8500'', ''8834'', ''8880'', ''8888'', ''8983'',
     ''9000'', ''9043'', ''9060'', ''9080'', ''9090'', ''9091'', ''9200'', ''9443'', ''9800'',
     ''9981'', ''12443'', ''16080'', ''18091'', ''18092'', ''20720'', ''28017'']"

definition large :: "string list" where
  "large = [''81'', ''591'', ''2082'', ''2087'', ''2095'', ''2096'', ''3000'', ''8000'', ''8001'',
     ''8008'', ''8080'', ''8083'', ''8443'', ''8834'', ''8888'']"

definition small :: "string list" where
  "small = [''7000'', ''7001'', ''8000'', ''8001'', ''8008'', ''8080'', ''8083'', ''8443'',
     ''8834'', ''8888'', ''10000'']"

text \<open>\<open>strings.SplitN(s, sep, 2)\<close>: cut at the first separator, if there is one.\<close>

definition SplitN2 :: "string \<Rightarrow> string \<Rightarrow> string list" where
  "SplitN2 s sep =
     (let i = Index s sep in
      if i = -1 then [s] else [take (nat i) s, drop (nat i + length sep) s])"

text \<open>The sends of the feeder for one \<open>-p\<close> value \<open>p\<close>: the body of the \<open>switch\<close>.\<close>

definition probe_sends :: "unicode \<Rightarrow> string \<Rightarrow> string \<Rightarrow> (chan \<times> string) list" where
  "probe_sends U domain p =
     (if p = ''xlarge'' then map (\<lambda>port. (HttpsURLs, domain @ '':'' @ port)) xlarge
      else if p = ''large'' then map (\<lambda>port. (HttpsURLs, domain @ '':'' @ port)) large
      else if p = ''small'' then map (\<lambda>port. (HttpsURLs, domain @ '':'' @ port)) small
      else (let pair = SplitN2 p '':'' in
            if length pair \<noteq> 2 then []
            else if ToLower U (pair ! 0) = ''https''
                 then [(HttpsURLs, domain @ '':'' @ pair ! 1)]
                 else [(HttpURLs, domain @ '':'' @ pair ! 1)]))"

text \<open>The sends of the feeder for one line that the scanner returned, in order.\<close>

definition feed_line :: "config \<Rightarrow> unicode \<Rightarrow> string \<Rightarrow> (chan \<times> string) list" where
  "feed_line cfg U line =
     (let domain = ToLower U line in
      (if \<not> skipDefault cfg then [(HttpsURLs, domain)] else [])
      @ concat (map (probe_sends U domain) (probes cfg)))"

definition feeder_sends :: "config \<Rightarrow> unicode \<Rightarrow> string list \<Rightarrow> (chan \<times> string) list" where
  "feeder_sends cfg U lines = concat (map (feed_line cfg U) lines)"

section \<open>The pipeline\<close>

text \<open>
  The goroutines of \<open>main\<close> run interleaved and meet on three unbuffered channels. The
  program is a transition system: a state holds what each goroutine has still to do, an
  action is one step of one goroutine, and a schedule is a list of actions. A send and
  the receive it meets are one action. A worker is waiting to receive (\<open>Recv\<close>), holds a
  submission it has not probed yet (\<open>Got\<close>), has lines and submissions left to send after
  a probe (\<open>Pending\<close>), or has left its loop and called \<open>Done\<close> (\<open>Exited\<close>).
\<close>

datatype worker = Recv | Got string | Pending "string list" "string list" | Exited

datatype panic = SendOnClosed chan | SliceBounds

record state =
  feeder :: "(chan \<times> string) list"
  httpsClosed :: bool
  httpClosed :: bool
  outputClosed :: bool
  httpsWorkers :: "worker list"
  httpWorkers :: "worker list"
  probed :: "string list"
  printed :: "string list"
  panicked :: "panic option"

text \<open>The loop \<open>for i := 0; i < n; i++\<close> that starts one worker per round.\<close>

function spawn :: "int \<Rightarrow> int \<Rightarrow> worker list \<Rightarrow> worker list" where
  "spawn i n ws = (if i < n then spawn (i + 1) n (ws @ [Recv]) else ws)"
  by pat_completeness auto
termination
  by (relation "measure (\<lambda>(i, n, ws). nat (n - i))") auto

declare spawn.simps [simp del]

text \<open>
  The state when the feeder is about to read its first line. \<open>concurrency/2\<close> is the
  division of Go, which rounds towards zero.
\<close>

definition init :: "config \<Rightarrow> unicode \<Rightarrow> string list \<Rightarrow> state" where
  "init cfg U lines =
     \<lparr>feeder = feeder_sends cfg U lines,
      httpsClosed = False, httpClosed = False, outputClosed = False,
      httpsWorkers = spawn 0 (concurrency cfg sdiv 2) [],
      httpWorkers = spawn 0 (concurrency cfg sdiv 2) [],
      probed = [], printed = [], panicked = None\<rparr>"

fun settle :: "string list \<Rightarrow> string list \<Rightarrow> worker" where
  "settle [] [] = Recv"
| "settle outs fwds = Pending outs fwds"

fun chan_closed :: "state \<Rightarrow> chan \<Rightarrow> bool" where
  "chan_closed s HttpsURLs = httpsClosed s"
| "chan_closed s HttpURLs = httpClosed s"
| "chan_closed s Output = outputClosed s"

definition all_exited :: "worker list \<Rightarrow> bool" where
  "all_exited ws = list_all (\<lambda>w. w = Exited) ws"

datatype action =
    FeedHTTPS nat
  | FeedHTTP nat
  | FeedClosed
  | CloseHTTPS
  | HttpsProbe nat
  | HttpsEmit nat
  | HttpsForward nat nat
  | HttpsForwardClosed nat
  | HttpsExit nat
  | CloseHTTP
  | HttpProbe nat
  | HttpEmit nat
  | HttpExit nat
  | CloseOutput

text \<open>
  What an action does when it can happen; \<open>None\<close> when it cannot.
  \<^item> \<open>FeedHTTPS i\<close>, \<open>FeedHTTP j\<close>: the next send of the feeder is received by a waiting worker.
  \<^item> \<open>FeedClosed\<close>: the next send of the feeder meets a closed channel and panics.
  \<^item> \<open>CloseHTTPS\<close>: the feeder has left its loop and closes \<open>httpsURLs\<close>.
  \<^item> \<open>HttpsProbe i\<close>: worker \<open>i\<close> probes the submission it holds.
  \<^item> \<open>HttpsEmit i\<close>: it sends its line on \<open>output\<close>, where the output goroutine prints it;
    on a closed \<open>output\<close> the send panics.
  \<^item> \<open>HttpsForward i j\<close>: it sends the submission on \<open>httpURLs\<close>, HTTP worker \<open>j\<close> receives it.
  \<^item> \<open>HttpsForwardClosed i\<close>: that send meets a closed \<open>httpURLs\<close> and panics.
  \<^item> \<open>HttpsExit i\<close>: the worker finds \<open>httpsURLs\<close> closed and calls \<open>httpsWG.Done\<close>.
  \<^item> \<open>CloseHTTP\<close>: \<open>httpsWG.Wait\<close> returns, every HTTPS worker having called \<open>Done\<close>, and
    \<open>httpURLs\<close> is closed.
  \<^item> \<open>HttpProbe\<close>, \<open>HttpEmit\<close>, \<open>HttpExit\<close>, \<open>CloseOutput\<close>: the same one stage further.
\<close>

fun fire :: "config \<Rightarrow> http \<Rightarrow> unicode \<Rightarrow> action \<Rightarrow> state \<Rightarrow> state option" where
  "fire cfg H U (FeedHTTPS i) s =
     (case feeder s of
        [] \<Rightarrow> None
      | (c, u) # rest \<Rightarrow>
          if c = HttpsURLs \<and> \<not> httpsClosed s \<and> i < length (httpsWorkers s)
             \<and> httpsWorkers s ! i = Recv
          then Some (s\<lparr>feeder := rest, httpsWorkers := (httpsWorkers s)[i := Got u]\<rparr>)
          else None)"
| "fire cfg H U (FeedHTTP j) s =
     (case feeder s of
        [] \<Rightarrow> None
      | (c, u) # rest \<Rightarrow>
          if c = HttpURLs \<and> \<not> httpClosed s \<and> j < length (httpWorkers s)
             \<and> httpWorkers s ! j = Recv
          then Some (s\<lparr>feeder := rest, httpWorkers := (httpWorkers s)[j := Got u]\<rparr>)
          else None)"
| "fire cfg H U FeedClosed s =
     (case feeder s of
        [] \<Rightarrow> None
      | (c, u) # rest \<Rightarrow>
          if chan_closed s c then Some (s\<lparr>panicked := Some (SendOnClosed c)\<rparr>) else None)"
| "fire cfg H U CloseHTTPS s =
     (if feeder s = [] \<and> \<not> httpsClosed s then Some (s\<lparr>httpsClosed := True\<rparr>) else None)"
| "fire cfg H U (HttpsProbe i) s =
     (if i < length (httpsWorkers s)
      then (case httpsWorkers s ! i of
              Got u \<Rightarrow>
                (case https_worker cfg H U u of
                   (url, None) \<Rightarrow>
                     Some (s\<lparr>probed := probed s @ [url], panicked := Some SliceBounds\<rparr>)
                 | (url, Some (outs, fwds)) \<Rightarrow>
                     Some (s\<lparr>probed := probed s @ [url],
                             httpsWorkers := (httpsWorkers s)[i := settle outs fwds]\<rparr>))
            | _ \<Rightarrow> None)
      else None)"
| "fire cfg H U (HttpsEmit i) s =
     (if i < length (httpsWorkers s)
      then (case httpsWorkers s ! i of
              Pending (l # outs) fwds \<Rightarrow>
                if outputClosed s then Some (s\<lparr>panicked := Some (SendOnClosed Output)\<rparr>)
                else Some (s\<lparr>printed := printed s @ [l],
                             httpsWorkers := (httpsWorkers s)[i := settle outs fwds]\<rparr>)
            | _ \<Rightarrow> None)
      else None)"
| "fire cfg H U (HttpsForward i j) s =
     (if i < length (httpsWorkers s)
      then (case httpsWorkers s ! i of
              Pending [] (u # fwds) \<Rightarrow>
                if \<not> httpClosed s \<and> j < length (httpWorkers s) \<and> httpWorkers s ! j = Recv
                then Some (s\<lparr>httpsWorkers := (httpsWorkers s)[i := settle [] fwds],
                             httpWorkers := (httpWorkers s)[j := Got u]\<rparr>)
                else None
            | _ \<Rightarrow> None)
      else None)"
| "fire cfg H U (HttpsForwardClosed i) s =
     (if i < length (httpsWorkers s)
      then (case httpsWorkers s ! i of
              Pending [] (u # fwds) \<Rightarrow>
                if httpClosed s then Some (s\<lparr>panicked := Some (SendOnClosed HttpURLs)\<rparr>)
                else None
            | _ \<Rightarrow> None)
      else None)"
| "fire cfg H U (HttpsExit i) s =
     (if i < length (httpsWorkers s) \<and> httpsWorkers s ! i = Recv \<and> httpsClosed s
      then Some (s\<lparr>httpsWorkers := (httpsWorkers s)[i := Exited]\<rparr>)
      else None)"
| "fire cfg H U CloseHTTP s =
     (if \<not> httpClosed s \<and> all_exited (httpsWorkers s)
      then Some (s\<lparr>httpClosed := True\<rparr>) else None)"
| "fire cfg H U (HttpProbe j) s =
     (if j < length (httpWorkers s)
      then (case httpWorkers s ! j of
              Got u \<Rightarrow>
                (case http_worker cfg H U u of
                   (url, None) \<Rightarrow>
                     Some (s\<lparr>probed := probed s @ [url], panicked := Some SliceBounds\<rparr>)
                 | (url, Some (outs, fwds)) \<Rightarrow>
                     Some (s\<lparr>probed := probed s @ [url],
                             httpWorkers := (httpWorkers s)[j := settle outs fwds]\<rparr>))
            | _ \<Rightarrow> None)
      else None)"
| "fire cfg H U (HttpEmit j) s =
     (if j < length (httpWorkers s)
      then (case httpWorkers s ! j of
              Pending (l # outs) fwds \<Rightarrow>
                if outputClosed s then Some (s\<lparr>panicked := Some (SendOnClosed Output)\<rparr>)
                else Some (s\<lparr>printed := printed s @ [l],
                             httpWorkers := (httpWorkers s)[j := settle outs fwds]\<rparr>)
            | _ \<Rightarrow> None)
      else None)"
| "fire cfg H U (HttpExit j) s =
     (if j < length (httpWorkers s) \<and> httpWorkers s ! j = Recv \<and> httpClosed s
      then Some (s\<lparr>httpWorkers := (httpWorkers s)[j := Exited]\<rparr>)
      else None)"
| "fire cfg H U CloseOutput s =
     (if \<not> outputClosed s \<and> all_exited (httpWorkers s)
      then Some (s\<lparr>outputClosed := True\<rparr>) else None)"

text \<open>A panic ends the process: no goroutine takes a step after it.\<close>

definition step :: "config \<Rightarrow> http \<Rightarrow> unicode \<Rightarrow> action \<Rightarrow> state \<Rightarrow> state option" where
  "step cfg H U a s = (if panicked s = None then fire cfg H U a s else None)"

fun exec :: "config \<Rightarrow> http \<Rightarrow> unicode \<Rightarrow> action list \<Rightarrow> state \<Rightarrow> state option" where
  "exec cfg H U [] s = Some s"
| "exec cfg H U (a # as) s =
     (case step cfg H U a s of None \<Rightarrow> None | Some s' \<Rightarrow> exec cfg H U as s')"

section \<open>Example environments\<close>

text \<open>
  Concrete values on which the theorems below are evaluated: Unicode functions that leave
  a string as it is, a server that answers HTTPS and refuses plain HTTP, a network that
  refuses every connection, and the default flags with all three display flags set.
\<close>

definition ascii_only :: unicode where
  "ascii_only = \<lparr>uToLower = (\<lambda>s. s), uTrimSpace = (\<lambda>s. s), uFields = (\<lambda>s. [s])\<rparr>"

definition nginx :: http where
  "nginx = \<lparr>request_ok = (\<lambda>m u. True),
            Do = (\<lambda>req. if take 8 (URL req) = ''https://''
                        then Inr \<lparr>StatusCode = 200, Header = [(''Server'', ''nginx'')],
                                  Body = \<lparr>bytes = ''<title>a</title>'', read_err = False\<rparr>\<rparr>
                        else Inl ''connection refused'')\<rparr>"

definition down :: http where
  "down = \<lparr>request_ok = (\<lambda>m u. True), Do = (\<lambda>req. Inl ''connection refused'')\<rparr>"

definition flags :: config where
  "flags = \<lparr>concurrency = 20, probes = [], skipDefault = False, preferHTTPS = False,
            httpMethod = ''GET'', userAgent = ''httprobe'', showStatus = True, showServer = True,
            showTitle = True\<rparr>"

section \<open>Evaluation and string lemmas\<close>

lemmas str_eval = ToLower_def isASCII_def lower_byte_def slice_from_def slice_def
  TrimSpace_def Fields_def ascii_trim_def is_space_def ascii_fields.simps char_of_def
  bit_Suc_0_iff itoa_def digits.simps

lemmas probe_eval = probeURL_def NewRequest_def Header_Add_def Header_Get_def zero_result_def
  ReadAll_LimitReader_def extractTitle_def

lemma Index_char:
  "Index s [c] = (if c \<in> set s then int (length (takeWhile (\<lambda>x. x \<noteq> c) s)) else -1)"
  by (induction s) (auto simp: Let_def)

lemma SplitN2_colon:
  "SplitN2 p '':'' = (if CHR '':'' \<in> set p
       then [takeWhile (\<lambda>x. x \<noteq> CHR '':'') p, tl (dropWhile (\<lambda>x. x \<noteq> CHR '':'') p)]
       else [p])"
proof (cases "CHR '':'' \<in> set p")
  case True
  let ?n = "length (takeWhile (\<lambda>x. x \<noteq> CHR '':'') p)"
  have i: "Index p '':'' = int ?n" using True by (simp add: Index_char)
  have t: "take ?n p = takeWhile (\<lambda>x. x \<noteq> CHR '':'') p"
    by (rule takeWhile_eq_take [symmetric])
  have d: "drop (?n + 1) p = tl (dropWhile (\<lambda>x. x \<noteq> CHR '':'') p)"
    by (simp add: dropWhile_eq_drop drop_Suc tl_drop)
  have "SplitN2 p '':'' = [take ?n p, drop (?n + 1) p]"
    unfolding SplitN2_def i by (simp add: Let_def)
  then show ?thesis using True t d by simp
next
  case False
  then show ?thesis by (simp add: SplitN2_def Index_char)
qed

lemma probe_nginx_https:
  "probeURL nginx ascii_only ''https://a'' ''GET'' ''httprobe'' True =
     Some \<lparr>success = True, status = 200, server = ''nginx'', title = ''a''\<rparr>"
  by (simp add: probe_eval nginx_def str_eval)

lemma probe_down:
  "probeURL down U url m ua nb = Some \<lparr>success = False, status = 0, server = [], title = []\<rparr>"
  by (simp add: probe_eval down_def)

section \<open>The HTTPS worker\<close>

text \<open>
  C1. An HTTPS worker that received the submission \<open>u\<close> probes \<open>https://u\<close>. When the
  probe returns the result \<open>r\<close>: if \<open>r\<close> is a success the worker sends exactly one line
  on \<open>output\<close>, the formatted line of \<open>https://u\<close>, and otherwise none; it then sends
  the same string \<open>u\<close> on \<open>httpURLs\<close>, except when \<open>r\<close> is a success and
  \<open>-prefer-https\<close> is set, in which case it sends nothing there.
\<close>

theorem https_worker_cascade:
  assumes "probeURL H U (''https://'' @ u) (httpMethod cfg) (userAgent cfg) (showTitle cfg) = Some r"
  shows "https_worker cfg H U u =
           (''https://'' @ u,
            Some ((if success r
                   then [formatOutput (''https://'' @ u) r (showStatus cfg) (showServer cfg) (showTitle cfg)]
                   else []),
                  (if success r \<and> preferHTTPS cfg then [] else [u])))"
  using assms by (simp add: https_worker_def Let_def)

theorem https_worker_cascade_witness:
  "probeURL nginx ascii_only (''https://'' @ ''a'') (httpMethod flags) (userAgent flags) (showTitle flags)
     = Some \<lparr>success = True, status = 200, server = ''nginx'', title = ''a''\<rparr>
   \<and> https_worker flags nginx ascii_only ''a''
     = (''https://a'', Some ([''https://a [200] [nginx] [a]''], [''a'']))
   \<and> https_worker (flags\<lparr>preferHTTPS := True\<rparr>) nginx ascii_only ''a''
     = (''https://a'', Some ([''https://a [200] [nginx] [a]''], []))
   \<and> https_worker (flags\<lparr>preferHTTPS := True\<rparr>) down ascii_only ''a''
     = (''https://a'', Some ([], [''a'']))"
proof -
  let ?r = "\<lparr>success = True, status = 200, server = ''nginx'', title = ''a''\<rparr>"
  have p: "probeURL nginx ascii_only (''https://'' @ ''a'') (httpMethod flags) (userAgent flags) (showTitle flags) = Some ?r"
    using probe_nginx_https by (simp add: flags_def)
  have p': "probeURL nginx ascii_only (''https://'' @ ''a'') (httpMethod (flags\<lparr>preferHTTPS := True\<rparr>))
      (userAgent (flags\<lparr>preferHTTPS := True\<rparr>)) (showTitle (flags\<lparr>preferHTTPS := True\<rparr>)) = Some ?r"
    using probe_nginx_https by (simp add: flags_def)
  have q: "probeURL down ascii_only (''https://'' @ ''a'') (httpMethod (flags\<lparr>preferHTTPS := True\<rparr>))
      (userAgent (flags\<lparr>preferHTTPS := True\<rparr>)) (showTitle (flags\<lparr>preferHTTPS := True\<rparr>))
      = Some \<lparr>success = False, status = 0, server = [], title = []\<rparr>"
    by (rule probe_down)
  show ?thesis
    using p https_worker_cascade [OF p] https_worker_cascade [OF p'] https_worker_cascade [OF q]
    by (simp add: flags_def formatOutput_def itoa_def digits.simps char_of_def bit_Suc_0_iff)
qed

section \<open>The probe executor\<close>

text \<open>
  C5. When \<open>http.NewRequest\<close> rejects the method and the URL, or \<open>client.Do\<close> answers
  the request with an error, \<open>probeURL\<close> returns the result whose \<open>success\<close> is false,
  whose status is \<open>0\<close> and whose server and title are empty, for every URL, method,
  user agent and value of \<open>needBody\<close>.
\<close>

theorem probeURL_error:
  assumes "\<not> request_ok H m url \<or>
           (\<exists>e. Do H \<lparr>Method = (if m = [] then ''GET'' else m), URL = url,
                      ReqHeader = [(''User-Agent'', ua), (''Connection'', ''close'')],
                      Close = True\<rparr> = Inl e)"
  shows "probeURL H U url m ua needBody =
           Some \<lparr>success = False, status = 0, server = [], title = []\<rparr>"
  using assms by (auto simp: probeURL_def NewRequest_def Header_Add_def zero_result_def)

theorem probeURL_error_witness:
  "Do nginx \<lparr>Method = ''GET'', URL = ''http://a'',
             ReqHeader = [(''User-Agent'', ''httprobe''), (''Connection'', ''close'')],
             Close = True\<rparr> = Inl ''connection refused''
   \<and> probeURL nginx ascii_only ''http://a'' ''GET'' ''httprobe'' True =
       Some \<lparr>success = False, status = 0, server = [], title = []\<rparr>"
proof -
  have d: "Do nginx \<lparr>Method = (if ''GET'' = [] then ''GET'' else ''GET''), URL = ''http://a'',
             ReqHeader = [(''User-Agent'', ''httprobe''), (''Connection'', ''close'')],
             Close = True\<rparr> = Inl ''connection refused''"
    by (simp add: nginx_def)
  then have "\<not> request_ok nginx ''GET'' ''http://a'' \<or>
           (\<exists>e. Do nginx \<lparr>Method = (if ''GET'' = [] then ''GET'' else ''GET''), URL = ''http://a'',
                      ReqHeader = [(''User-Agent'', ''httprobe''), (''Connection'', ''close'')],
                      Close = True\<rparr> = Inl e)"
    by blast
  from probeURL_error [OF this, of ascii_only True] d show ?thesis by simp
qed


section \<open>The feeder\<close>

lemma takeWhile_sep: "c \<notin> set a \<Longrightarrow> takeWhile (\<lambda>x. x \<noteq> c) (a @ c # b) = a"
  by (induction a) auto

lemma dropWhile_sep: "c \<notin> set a \<Longrightarrow> dropWhile (\<lambda>x. x \<noteq> c) (a @ c # b) = c # b"
  by (induction a) auto

lemma ToLower_ascii_only_https: "ToLower ascii_only ''https'' = ''https''"
  by (simp add: str_eval)

text \<open>
  C3, as the code has it. A \<open>-p\<close> value that is none of \<open>xlarge\<close>, \<open>large\<close>, \<open>small\<close> is
  skipped, with no send and no message, exactly when it contains no \<open>:\<close>. A value with
  one \<open>:\<close> or more is cut at the first \<open>:\<close> and gives exactly one send, of the domain,
  a \<open>:\<close> and everything after that first \<open>:\<close>.
\<close>

theorem probe_token_split:
  assumes "p \<noteq> ''xlarge''" and "p \<noteq> ''large''" and "p \<noteq> ''small''"
  shows "probe_sends U d p =
           (if CHR '':'' \<in> set p
            then [(if ToLower U (takeWhile (\<lambda>x. x \<noteq> CHR '':'') p) = ''https''
                   then HttpsURLs else HttpURLs,
                   d @ '':'' @ tl (dropWhile (\<lambda>x. x \<noteq> CHR '':'') p))]
            else [])"
  using assms by (simp add: probe_sends_def SplitN2_colon)

theorem probe_token_split_witness:
  "''bogus'' \<noteq> ''xlarge'' \<and> ''bogus'' \<noteq> ''large'' \<and> ''bogus'' \<noteq> ''small''
   \<and> probe_sends ascii_only ''example.com'' ''bogus'' = []
   \<and> probe_sends ascii_only ''example.com'' ''http:81'' = [(HttpURLs, ''example.com:81'')]"
proof -
  have b: "''bogus'' \<noteq> ''xlarge''" "''bogus'' \<noteq> ''large''" "''bogus'' \<noteq> ''small''" by simp_all
  have h: "''http:81'' \<noteq> ''xlarge''" "''http:81'' \<noteq> ''large''" "''http:81'' \<noteq> ''small''" by simp_all
  have l: "ToLower ascii_only ''http'' \<noteq> ''https''" by (simp add: str_eval)
  show ?thesis
    using probe_token_split [OF b, of ascii_only "''example.com''"]
      probe_token_split [OF h, of ascii_only "''example.com''"] l
    by simp
qed

text \<open>
  C3 as the specification words it fails: the value \<open>https:80:90\<close> is not a named
  set and holds two separators, and it is not skipped.
\<close>

theorem two_separators_not_skipped:
  "''https:80:90'' \<noteq> ''xlarge'' \<and> ''https:80:90'' \<noteq> ''large'' \<and> ''https:80:90'' \<noteq> ''small''
   \<and> count_list ''https:80:90'' CHR '':'' = 2
   \<and> probe_sends ascii_only ''example.com'' ''https:80:90'' = [(HttpsURLs, ''example.com:80:90'')]"
  by (simp add: probe_sends_def SplitN2_def Let_def ToLower_ascii_only_https)

text \<open>
  C4. For a \<open>-p\<close> value \<open>scheme:port\<close> (the scheme holds no \<open>:\<close>) the feeder makes one
  send, of \<open>domain:port\<close>: on \<open>httpsURLs\<close> when the scheme, in lower case, is \<open>https\<close>,
  and on \<open>httpURLs\<close>, with nothing on \<open>httpsURLs\<close>, for every other scheme, \<open>http\<close>
  among them.
\<close>

theorem scheme_port_routing:
  assumes "CHR '':'' \<notin> set scheme"
  shows "probe_sends U d (scheme @ '':'' @ port) =
           (if ToLower U scheme = ''https'' then [(HttpsURLs, d @ '':'' @ port)]
            else [(HttpURLs, d @ '':'' @ port)])"
proof -
  let ?p = "scheme @ '':'' @ port"
  have c: "CHR '':'' \<in> set ?p" by simp
  have m: "CHR '':'' \<notin> set q \<Longrightarrow> ?p \<noteq> q" for q
    using c by auto
  have n: "?p \<noteq> ''xlarge''" "?p \<noteq> ''large''" "?p \<noteq> ''small''"
    by (rule m, simp)+
  have tw: "takeWhile (\<lambda>x. x \<noteq> CHR '':'') ?p = scheme"
    using assms by (simp add: takeWhile_sep)
  have dw: "dropWhile (\<lambda>x. x \<noteq> CHR '':'') ?p = '':'' @ port"
    using assms by (simp add: dropWhile_sep)
  show ?thesis using n c tw dw by (simp add: probe_sends_def SplitN2_colon del: append.simps)
qed

theorem scheme_port_routing_witness:
  "CHR '':'' \<notin> set ''https'' \<and> CHR '':'' \<notin> set ''http''
   \<and> probe_sends ascii_only ''example.com'' ''https:8443'' = [(HttpsURLs, ''example.com:8443'')]
   \<and> probe_sends ascii_only ''example.com'' ''http:81'' = [(HttpURLs, ''example.com:81'')]"
proof -
  have a: "CHR '':'' \<notin> set ''https''" and b: "CHR '':'' \<notin> set ''http''" by simp_all
  have l: "ToLower ascii_only ''http'' \<noteq> ''https''" by (simp add: str_eval)
  show ?thesis
    using scheme_port_routing [OF a, of ascii_only "''example.com''" "''8443''"]
      scheme_port_routing [OF b, of ascii_only "''example.com''" "''81''"]
      ToLower_ascii_only_https l
    by simp
qed

lemma spawn_replicate: "spawn i n ws = ws @ replicate (nat (n - i)) Recv"
proof (induction i n ws rule: spawn.induct)
  case (1 i n ws)
  show ?case
  proof (cases "i < n")
    case True
    then have "nat (n - i) = Suc (nat (n - (i + 1)))" by simp
    with True "1" show ?thesis
      by (simp add: spawn.simps [of i n ws] replicate_app_Cons_same)
  next
    case False
    then show ?thesis by (simp add: spawn.simps [of i n ws])
  qed
qed

lemma spaces_lower: "list_all is_space s \<Longrightarrow> isASCII s \<and> map lower_byte s = s"
  by (induction s) (auto simp: isASCII_def is_space_def lower_byte_def)

text \<open>
  C10. With the default probes not skipped, the first send of the feeder for a line is
  the line in lower case, on \<open>httpsURLs\<close>, whatever the line is: an empty line and a line
  of white space are sent as they are, nothing is trimmed and no line is dropped. The
  HTTPS worker that receives the empty submission probes the URL \<open>https://\<close>.
\<close>

theorem feeder_default_probe:
  assumes "\<not> skipDefault cfg"
  shows "feed_line cfg U line =
           (HttpsURLs, ToLower U line) # concat (map (probe_sends U (ToLower U line)) (probes cfg))
         \<and> (line \<in> set lines \<longrightarrow> (HttpsURLs, ToLower U line) \<in> set (feeder_sends cfg U lines))
         \<and> (list_all is_space line \<longrightarrow> ToLower U line = line)
         \<and> fst (https_worker cfg H U (ToLower U [])) = ''https://''"
proof -
  have 1: "feed_line cfg U line =
           (HttpsURLs, ToLower U line) # concat (map (probe_sends U (ToLower U line)) (probes cfg))"
    for line
    using assms by (simp add: feed_line_def Let_def)
  have 2: "(HttpsURLs, ToLower U line) \<in> set (feeder_sends cfg U lines)" if "line \<in> set lines"
  proof -
    have "(HttpsURLs, ToLower U line) \<in> set (feed_line cfg U line)" by (simp add: 1)
    then show ?thesis using that unfolding feeder_sends_def set_concat by auto
  qed
  have 3: "list_all is_space line \<longrightarrow> ToLower U line = line"
    by (auto simp: ToLower_def dest: spaces_lower)
  have 4: "fst (https_worker cfg H U (ToLower U [])) = ''https://''"
    by (simp add: ToLower_def https_worker_def Let_def isASCII_def)
  from 1 2 3 4 show ?thesis by blast
qed

theorem feeder_default_probe_witness:
  "\<not> skipDefault flags
   \<and> feeder_sends flags ascii_only [[], ''  '', ''Example.COM''] =
       [(HttpsURLs, []), (HttpsURLs, ''  ''), (HttpsURLs, ''example.com'')]
   \<and> map_option probed (exec flags down ascii_only [FeedHTTPS 0, HttpsProbe 0]
                           (init flags ascii_only [[]])) = Some [''https://'']"
proof -
  have n: "\<not> skipDefault flags" by (simp add: flags_def)
  have l: "ToLower ascii_only ''Example.COM'' = ''example.com''" by (simp add: str_eval)
  have s: "list_all is_space ''  ''" by (simp add: is_space_def)
  have e: "ToLower ascii_only [] = []" by (simp add: ToLower_def isASCII_def)
  have p: "probes flags = []" by (simp add: flags_def)
  have w: "spawn 0 10 [] = replicate 10 Recv"
    by (simp add: spawn_replicate)
  have i: "init flags ascii_only [[]] =
      \<lparr>feeder = [(HttpsURLs, [])], httpsClosed = False, httpClosed = False, outputClosed = False,
       httpsWorkers = replicate 10 Recv, httpWorkers = replicate 10 Recv,
       probed = [], printed = [], panicked = None\<rparr>"
    using feeder_default_probe [OF n, where U = ascii_only and line = "[]" and H = down] e p w
    by (simp add: init_def feeder_sends_def flags_def signed_divide_int_def)
  have r: "https_worker flags down ascii_only [] = (''https://'', Some ([], [[]]))"
    by (simp add: https_worker_def probe_down)
  show ?thesis
    using n feeder_default_probe [OF n, where U = ascii_only and line = "[]" and H = down]
      feeder_default_probe [OF n, where U = ascii_only and line = "''  ''" and H = down]
      feeder_default_probe [OF n, where U = ascii_only and line = "''Example.COM''" and H = down]
      l s e p
    by (simp add: feeder_sends_def i step_def r)
qed

section \<open>Titles and output lines\<close>

lemma extractTitle_a: "extractTitle ascii_only ''a'' = Some []"
  by (simp add: extractTitle_def str_eval)

text \<open>
  C8. The line sent for a successful probe is the URL, then \<open> [status]\<close> when the status
  flag is set, then \<open> [server]\<close> when the server flag is set, then \<open> [title]\<close> when the
  title flag is set, in this order and nothing else; an empty server and an empty title
  are printed as \<open>-\<close>.
\<close>

theorem output_line_format:
  "formatOutput url r ss sv st =
     url @ (if ss then '' ['' @ itoa (status r) @ '']'' else [])
         @ (if sv then '' ['' @ (if server r = [] then ''-'' else server r) @ '']'' else [])
         @ (if st then '' ['' @ (if title r = [] then ''-'' else title r) @ '']'' else [])"
  by (simp add: formatOutput_def)

text \<open>
  C7 fails as the specification words it: the title of \<open><title>a</title>\<close> is \<open>a\<close>, and
  the title of \<open>a\<close>, which holds no title element, is empty.
\<close>

theorem extractTitle_not_idempotent:
  "extractTitle ascii_only ''<title>a</title>'' = Some ''a''
   \<and> extractTitle ascii_only ''a'' = Some []
   \<and> Option.bind (extractTitle ascii_only ''<title>a</title>'') (extractTitle ascii_only)
       \<noteq> extractTitle ascii_only ''<title>a</title>''"
proof -
  have 1: "extractTitle ascii_only ''<title>a</title>'' = Some ''a''"
    by (simp add: extractTitle_def str_eval)
  show ?thesis using 1 extractTitle_a by simp
qed


section \<open>White space in titles\<close>

lemma isASCII_iff: "isASCII s \<longleftrightarrow> (\<forall>c\<in>set s. (of_char c :: nat) < 128)"
  by (simp add: isASCII_def list_all_iff)

lemma isASCII_subset: "isASCII s \<Longrightarrow> set t \<subseteq> set s \<Longrightarrow> isASCII t"
  by (auto simp: isASCII_iff)

lemma set_ascii_trim: "set (ascii_trim s) \<subseteq> set s"
  by (auto simp: ascii_trim_def dest!: set_dropWhileD)

lemma length_ascii_trim: "length (ascii_trim s) \<le> length s"
proof -
  have "length (dropWhile is_space (rev (dropWhile is_space s)))
          \<le> length (rev (dropWhile is_space s))"
    by (rule length_dropWhile_le)
  then show ?thesis
    using length_dropWhile_le [of is_space s] by (simp add: ascii_trim_def)
qed

lemma fields_Nil: "dropWhile is_space s = [] \<Longrightarrow> ascii_fields s = []"
  by (subst ascii_fields.simps) (simp only: list.case)

lemma fields_Cons:
  "dropWhile is_space s = c # cs \<Longrightarrow>
   ascii_fields s = takeWhile (\<lambda>x. \<not> is_space x) (c # cs)
                    # ascii_fields (dropWhile (\<lambda>x. \<not> is_space x) (c # cs))"
  by (subst ascii_fields.simps) (simp only: list.case)

lemma fields_dropWhile: "ascii_fields (dropWhile is_space s) = ascii_fields s"
proof (cases "dropWhile is_space s")
  case Nil
  then show ?thesis by (simp add: fields_Nil)
next
  case (Cons c cs)
  then have "dropWhile is_space (dropWhile is_space s) = c # cs"
    by (metis dropWhile_idem)
  from fields_Cons [OF this] fields_Cons [OF Cons] show ?thesis by simp
qed

lemma fields_good:
  "w \<in> set (ascii_fields s) \<Longrightarrow> w \<noteq> [] \<and> (\<forall>c\<in>set w. \<not> is_space c) \<and> set w \<subseteq> set s"
proof (induction s rule: ascii_fields.induct)
  case (1 s)
  show ?case
  proof (cases "dropWhile is_space s")
    case Nil
    then have "ascii_fields s = []" by (rule fields_Nil)
    then show ?thesis using "1.prems" by simp
  next
    case (Cons c cs)
    let ?t = "takeWhile (\<lambda>x. \<not> is_space x) (c # cs)"
    let ?r = "dropWhile (\<lambda>x. \<not> is_space x) (c # cs)"
    have nc: "\<not> is_space c"
      using Cons hd_dropWhile [of is_space s] by (metis list.sel(1) list.distinct(1))
    have sub: "set (c # cs) \<subseteq> set s"
      using Cons set_dropWhileD [of _ is_space s] by (metis subsetI)
    have subr: "set ?r \<subseteq> set (c # cs)"
      using set_dropWhileD [of _ "\<lambda>x. \<not> is_space x" "c # cs"] by (metis subsetI)
    have "w \<in> set (?t # ascii_fields ?r)"
      using "1.prems" fields_Cons [OF Cons] by metis
    then have "w = ?t \<or> w \<in> set (ascii_fields ?r)"
      by (simp only: set_simps insert_iff)
    then show ?thesis
    proof
      assume w: "w = ?t"
      have "w \<noteq> []" using w nc by simp
      moreover have "\<forall>x\<in>set w. \<not> is_space x"
        unfolding w using set_takeWhileD [of _ "\<lambda>x. \<not> is_space x" "c # cs"] by blast
      moreover have "set w \<subseteq> set (c # cs)"
        unfolding w using set_takeWhileD [of _ "\<lambda>x. \<not> is_space x" "c # cs"] by blast
      ultimately show ?thesis using sub by blast
    next
      assume "w \<in> set (ascii_fields ?r)"
      from "1.IH" [OF Cons this] subr sub show ?thesis by blast
    qed
  qed
qed

lemma takeWhile_word:
  "\<forall>x\<in>set w. \<not> is_space x \<Longrightarrow> takeWhile (\<lambda>x. \<not> is_space x) (w @ CHR '' '' # rest) = w"
  by (induction w) (auto simp: is_space_def)

lemma dropWhile_word:
  "\<forall>x\<in>set w. \<not> is_space x \<Longrightarrow>
   dropWhile (\<lambda>x. \<not> is_space x) (w @ CHR '' '' # rest) = CHR '' '' # rest"
  by (induction w) (auto simp: is_space_def)

lemma fields_space: "ascii_fields (CHR '' '' # rest) = ascii_fields rest"
proof -
  have "dropWhile is_space (CHR '' '' # rest) = dropWhile is_space rest"
    by (simp add: is_space_def)
  then show ?thesis by (metis fields_dropWhile)
qed

lemma fields_word:
  assumes "w \<noteq> []" and "\<forall>c\<in>set w. \<not> is_space c"
  shows "ascii_fields (w @ CHR '' '' # rest) = w # ascii_fields rest"
proof -
  obtain c cs where w: "w = c # cs" using assms(1) by (cases w) auto
  have nc: "\<not> is_space c" using assms(2) w by simp
  have d0: "dropWhile is_space (w @ CHR '' '' # rest) = c # (cs @ CHR '' '' # rest)"
    using w nc by simp
  have e: "c # (cs @ CHR '' '' # rest) = w @ CHR '' '' # rest" using w by simp
  show ?thesis
    using fields_Cons [OF d0] unfolding e
    by (simp only: takeWhile_word [OF assms(2)] dropWhile_word [OF assms(2)] fields_space)
qed

lemma fields_single:
  assumes "w \<noteq> []" and "\<forall>c\<in>set w. \<not> is_space c"
  shows "ascii_fields w = [w]"
proof -
  obtain c cs where w: "w = c # cs" using assms(1) by (cases w) auto
  have nc: "\<not> is_space c" using assms(2) w by simp
  have d0: "dropWhile is_space w = c # cs" using w nc by simp
  have tw: "takeWhile (\<lambda>x. \<not> is_space x) (c # cs) = w"
    unfolding w [symmetric] using assms(2) by (induction w) auto
  have dw: "dropWhile (\<lambda>x. \<not> is_space x) (c # cs) = []"
    unfolding w [symmetric] using assms(2) by (induction w) auto
  have "ascii_fields [] = []" by (rule fields_Nil) simp
  then show ?thesis using fields_Cons [OF d0] by (simp only: tw dw)
qed

lemma fields_Join:
  "\<forall>w\<in>set ws. w \<noteq> [] \<and> (\<forall>c\<in>set w. \<not> is_space c) \<Longrightarrow> ascii_fields (Join ws '' '') = ws"
proof (induction ws rule: induct_list012)
  case 1
  show ?case by (simp add: fields_Nil)
next
  case (2 x)
  then show ?case by (simp add: fields_single)
next
  case (3 x y zs)
  have "ascii_fields (x @ CHR '' '' # Join (y # zs) '' '') = x # ascii_fields (Join (y # zs) '' '')"
    using "3.prems" by (intro fields_word) auto
  then show ?case using "3.IH"(2) "3.prems" by simp
qed

lemma fields_trailing:
  "\<forall>c\<in>set z. is_space c \<Longrightarrow> ascii_fields (y @ z) = ascii_fields y"
proof (induction y rule: ascii_fields.induct)
  case (1 y)
  have z: "z = [] \<or> is_space (hd z)" using "1.prems" by (cases z) auto
  have tz: "takeWhile (\<lambda>x. \<not> is_space x) (a @ z) = takeWhile (\<lambda>x. \<not> is_space x) a" for a
    using z by (induction a) (auto simp: takeWhile_eq_Nil_iff)
  have dz: "dropWhile (\<lambda>x. \<not> is_space x) (a @ z) = dropWhile (\<lambda>x. \<not> is_space x) a @ z" for a
    using z by (induction a) (auto simp: dropWhile_eq_self_iff)
  show ?case
  proof (cases "dropWhile is_space y")
    case Nil
    then have "\<forall>c\<in>set y. is_space c" by (simp add: dropWhile_eq_Nil_conv)
    then have "dropWhile is_space (y @ z) = []"
      using "1.prems" by (simp add: dropWhile_eq_Nil_conv)
    then show ?thesis using Nil by (simp add: fields_Nil)
  next
    case (Cons c cs)
    then have "\<not> (\<forall>c\<in>set y. is_space c)" by (metis dropWhile_eq_Nil_conv list.distinct(1))
    then obtain x where "x \<in> set y" "\<not> is_space x" by blast
    then have "dropWhile is_space (y @ z) = (c # cs) @ z"
      using Cons by (simp add: dropWhile_append1)
    then have d: "dropWhile is_space (y @ z) = c # (cs @ z)" by simp
    have e: "c # (cs @ z) = (c # cs) @ z" by simp
    have "ascii_fields (y @ z) = takeWhile (\<lambda>x. \<not> is_space x) ((c # cs) @ z)
             # ascii_fields (dropWhile (\<lambda>x. \<not> is_space x) ((c # cs) @ z))"
      using fields_Cons [OF d] unfolding e .
    also have "\<dots> = takeWhile (\<lambda>x. \<not> is_space x) (c # cs)
             # ascii_fields (dropWhile (\<lambda>x. \<not> is_space x) (c # cs) @ z)"
      by (simp only: tz dz)
    also have "ascii_fields (dropWhile (\<lambda>x. \<not> is_space x) (c # cs) @ z)
             = ascii_fields (dropWhile (\<lambda>x. \<not> is_space x) (c # cs))"
      by (rule "1.IH" [OF Cons "1.prems"])
    finally show ?thesis using fields_Cons [OF Cons] by simp
  qed
qed

lemma fields_trim: "ascii_fields (ascii_trim s) = ascii_fields s"
proof -
  let ?d = "dropWhile is_space s"
  have "?d = rev (dropWhile is_space (rev ?d)) @ rev (takeWhile is_space (rev ?d))"
    by (metis rev_append rev_rev_ident takeWhile_dropWhile_id)
  moreover have "\<forall>c\<in>set (rev (takeWhile is_space (rev ?d))). is_space c"
    by (auto dest: set_takeWhileD)
  ultimately have "ascii_fields ?d = ascii_fields (rev (dropWhile is_space (rev ?d)))"
    using fields_trailing by metis
  then show ?thesis by (simp add: ascii_trim_def fields_dropWhile)
qed


lemma length_Join_Cons:
  "length (Join (x # fs) sep) =
     length x + (if fs = [] then 0 else length sep + length (Join fs sep))"
  by (cases fs) auto

lemma length_Join_fields:
  "length (Join (ascii_fields s) '' '') + length (takeWhile is_space s) \<le> length s"
proof (induction s rule: ascii_fields.induct)
  case (1 s)
  show ?case
  proof (cases "dropWhile is_space s")
    case Nil
    then show ?thesis by (simp add: fields_Nil length_takeWhile_le)
  next
    case (Cons c cs)
    let ?t = "takeWhile (\<lambda>x. \<not> is_space x) (c # cs)"
    let ?r = "dropWhile (\<lambda>x. \<not> is_space x) (c # cs)"
    have s: "length s = length (takeWhile is_space s) + length (c # cs)"
      using Cons takeWhile_dropWhile_id [of is_space s] by (metis length_append)
    have tr: "length (c # cs) = length ?t + length ?r"
      using takeWhile_dropWhile_id [of "\<lambda>x. \<not> is_space x" "c # cs"] by (metis length_append)
    have ih: "length (Join (ascii_fields ?r) '' '') + length (takeWhile is_space ?r) \<le> length ?r"
      by (rule "1.IH" [OF Cons])
    have j: "length (Join (ascii_fields s) '' '') =
        length ?t + (if ascii_fields ?r = [] then 0 else 1 + length (Join (ascii_fields ?r) '' ''))"
      using fields_Cons [OF Cons] by (simp only: length_Join_Cons) simp
    show ?thesis
    proof (cases "ascii_fields ?r = []")
      case True
      then show ?thesis using j s tr by simp
    next
      case False
      have "ascii_fields [] = []" by (rule fields_Nil) simp
      then have "?r \<noteq> []" using False by metis
      then have "is_space (hd ?r)" using hd_dropWhile [of "\<lambda>x. \<not> is_space x" "c # cs"] by blast
      then have "takeWhile is_space ?r \<noteq> []" using \<open>?r \<noteq> []\<close> by (cases ?r) auto
      then have "1 \<le> length (takeWhile is_space ?r)" by (cases "takeWhile is_space ?r") auto
      then show ?thesis using False j s tr ih by simp
    qed
  qed
qed

lemma length_normalised: "length (Join (ascii_fields (ascii_trim x)) '' '') \<le> length x"
proof -
  have "length (Join (ascii_fields (ascii_trim x)) '' '') \<le> length (ascii_trim x)"
    using length_Join_fields [of "ascii_trim x"] by simp
  then show ?thesis using length_ascii_trim [of x] by simp
qed

lemma set_Join: "set (Join ws sep) \<subseteq> \<Union> (set ` set ws) \<union> set sep"
  by (induction ws rule: induct_list012) auto

lemma set_normalised: "set (Join (ascii_fields (ascii_trim x)) '' '') \<subseteq> insert CHR '' '' (set x)"
proof -
  have "\<Union> (set ` set (ascii_fields (ascii_trim x))) \<subseteq> set x"
    using fields_good [of _ "ascii_trim x"] set_ascii_trim [of x] by blast
  then show ?thesis using set_Join [of "ascii_fields (ascii_trim x)" "'' ''"] by fastforce
qed

lemma isASCII_normalised:
  assumes "isASCII x"
  shows "isASCII (Join (ascii_fields (ascii_trim x)) '' '')"
proof -
  have "(of_char CHR '' '' :: nat) < 128" by simp
  then show ?thesis using assms set_normalised [of x] by (auto simp: isASCII_iff)
qed

lemma normalised_fixed:
  assumes "isASCII x" and "t = Join (ascii_fields (ascii_trim x)) '' ''"
  shows "Join (Fields U (TrimSpace U t)) '' '' = t"
proof -
  let ?ws = "ascii_fields (ascii_trim x)"
  have a: "isASCII t" using assms isASCII_normalised by simp
  then have b: "isASCII (ascii_trim t)" using set_ascii_trim isASCII_subset by blast
  have "Join (Fields U (TrimSpace U t)) '' '' = Join (ascii_fields (ascii_trim t)) '' ''"
    using a b by (simp add: Fields_def TrimSpace_def)
  also have "\<dots> = Join (ascii_fields (Join ?ws '' '')) '' ''"
    using assms(2) by (simp add: fields_trim)
  also have "ascii_fields (Join ?ws '' '') = ?ws"
    using fields_good [of _ "ascii_trim x"] by (intro fields_Join) blast
  finally show ?thesis using assms(2) by simp
qed

lemma HasPrefix_length: "HasPrefix s p \<Longrightarrow> length p \<le> length s"
  by (induction s p rule: HasPrefix.induct) auto

lemma Index_bound:
  "Index s sub \<noteq> -1 \<Longrightarrow> 0 \<le> Index s sub \<and> Index s sub + int (length sub) \<le> int (length s)"
  by (induction s) (auto simp: Let_def dest: HasPrefix_length split: if_splits)

lemma extractTitle_cases:
  assumes "isASCII b" and "extractTitle U b = Some t"
  shows "t = [] \<or> (\<exists>x. isASCII x \<and> length x + 15 \<le> length b
                        \<and> t = Join (ascii_fields (ascii_trim x)) '' '')"
proof -
  let ?lower = "map lower_byte b"
  let ?i = "Index ?lower ''<title>''"
  have l: "ToLower U b = ?lower" using assms(1) by (simp add: ToLower_def)
  show ?thesis
  proof (cases "?i = -1")
    case True
    then show ?thesis using assms(2) l by (simp add: extractTitle_def)
  next
    case False
    from Index_bound [OF False] have i: "0 \<le> ?i" "?i + 7 \<le> int (length b)" by simp_all
    let ?start = "nat (?i + 7)"
    let ?rest = "drop ?start ?lower"
    let ?e = "Index ?rest ''</title>''"
    have sf: "slice_from ?lower (?i + 7) = Some ?rest" using i by (simp add: slice_from_def)
    show ?thesis
    proof (cases "?e = -1")
      case True
      then show ?thesis using assms(2) l False sf by (simp add: extractTitle_def Let_def)
    next
      case e: False
      from Index_bound [OF e] have eb: "0 \<le> ?e" "?e + 8 \<le> int (length ?rest)" by simp_all
      let ?x = "take (nat ?e) (drop ?start b)"
      have sl: "slice b (?i + 7) (?i + 7 + ?e) = Some ?x"
        using i eb by (simp add: slice_def)
      have t: "t = Join (Fields U (TrimSpace U ?x)) '' ''"
        using assms(2) l False sf e sl by (simp add: extractTitle_def Let_def)
      have sub: "set ?x \<subseteq> set b"
        by (meson set_take_subset set_drop_subset subset_trans)
      have ax: "isASCII ?x" using assms(1) sub isASCII_subset by blast
      then have "isASCII (ascii_trim ?x)" using set_ascii_trim isASCII_subset by blast
      then have t': "t = Join (ascii_fields (ascii_trim ?x)) '' ''"
        using t ax by (simp add: Fields_def TrimSpace_def)
      have "length ?x + 15 \<le> length b" using i eb by simp
      then show ?thesis using ax t' by blast
    qed
  qed
qed

lemma extractTitle_Nil: "extractTitle U [] = Some []"
  by (simp add: extractTitle_def ToLower_def isASCII_def)

text \<open>
  C7, as the code has it. On an ASCII body the title that \<open>extractTitle\<close> returns is
  normalised: trimming it and collapsing its white space again gives the same title. A
  second \<open>extractTitle\<close> does not: it returns the title it is given only if that title is
  empty, since a title without a title element inside is mapped to the empty string.
\<close>

theorem title_normalised:
  assumes "isASCII b" and "extractTitle U b = Some t"
  shows "Join (Fields U (TrimSpace U t)) '' '' = t \<and> (extractTitle U t = Some t \<longleftrightarrow> t = [])"
proof -
  from extractTitle_cases [OF assms]
  have n: "Join (Fields U (TrimSpace U t)) '' '' = t \<and> isASCII t"
  proof
    assume "t = []"
    then show ?thesis
      by (simp add: Fields_def TrimSpace_def isASCII_def ascii_trim_def fields_Nil)
  next
    assume "\<exists>x. isASCII x \<and> length x + 15 \<le> length b \<and> t = Join (ascii_fields (ascii_trim x)) '' ''"
    then obtain x where "isASCII x" "t = Join (ascii_fields (ascii_trim x)) '' ''" by blast
    then show ?thesis using normalised_fixed isASCII_normalised by blast
  qed
  have "t = []" if "extractTitle U t = Some t"
  proof (rule ccontr)
    assume ne: "t \<noteq> []"
    from extractTitle_cases [OF _ that] n ne
    obtain x where "length x + 15 \<le> length t" "t = Join (ascii_fields (ascii_trim x)) '' ''"
      by blast
    then show False using length_normalised [of x] by simp
  qed
  then show ?thesis using n extractTitle_Nil by blast
qed

theorem title_normalised_witness:
  "isASCII ''<title> Foo   Bar </title>''
   \<and> extractTitle ascii_only ''<title> Foo   Bar </title>'' = Some ''Foo Bar''
   \<and> Join (Fields ascii_only (TrimSpace ascii_only ''Foo Bar'')) '' '' = ''Foo Bar''
   \<and> extractTitle ascii_only ''Foo Bar'' \<noteq> Some ''Foo Bar''"
proof -
  have a: "isASCII ''<title> Foo   Bar </title>''" by (simp add: isASCII_def)
  have e: "extractTitle ascii_only ''<title> Foo   Bar </title>'' = Some ''Foo Bar''"
    by (simp add: extractTitle_def str_eval)
  from title_normalised [OF a e] a e show ?thesis by simp
qed









section \<open>The worker pools\<close>








section \<open>Closing \<open>httpURLs\<close>\<close>














end
